theory Spec2Isabelle
  imports Complex_Main
begin

section \<open>Seeded random number generator (class Random, src/main.ts)\<close>

text \<open>
  The generator keeps one static field, the current seed. Every operation that draws a
  number takes the seed and returns the drawn value together with the new seed.
  The source computes \<open>Math.floor((seed * 48271) % 2147483647)\<close> in double arithmetic.
  Seeds are modelled as integers, and the model is the source's function on the seeds
  whose product with \<open>48271\<close> is below \<open>2^53\<close> in absolute value (\<open>exact_seed\<close> below):
  there the product, the remainder and the floor of the source are exact. Every value
  that \<open>Random.next()\<close> stores is such a seed (\<open>exact_seed_next\<close>), and so is every seed
  read from the clock by \<open>Random.reset()\<close>; a seed passed by a caller need not be one
  (above \<open>2^53 / 48271\<close> the source rounds the product, and from about \<open>3.7e303\<close> on the
  product is infinite and every drawn value is \<open>NaN\<close>), so the properties of the values
  drawn from a caller's seed are stated for exact seeds. The remainder operator of the
  source truncates towards zero (the result takes the sign of the dividend), which is
  written out in \<open>js_rem\<close>.
\<close>

definition g :: int where
  "g = 48271"

definition n :: int where
  "n = 2147483647"

definition js_rem :: "int \<Rightarrow> int \<Rightarrow> int" where
  "js_rem a b = (if a < 0 then - ((- a) mod b) else a mod b)"

text \<open>\<open>Random.reset(seed = -1)\<close>; \<open>now\<close> is the reading of \<open>Date.now()\<close>.\<close>

definition reset :: "int \<Rightarrow> int \<Rightarrow> int" where
  "reset seed now = (if seed \<noteq> -1 then seed else js_rem now n)"

text \<open>\<open>Random.next()\<close>: the new seed, which is also the value returned.\<close>

definition next_seed :: "int \<Rightarrow> int" where
  "next_seed seed = js_rem (seed * g) n"

text \<open>The seeds on which the double arithmetic of \<open>Random.next()\<close> is exact.\<close>

definition exact_seed :: "int \<Rightarrow> bool" where
  "exact_seed seed = (\<bar>seed * g\<bar> < 2 ^ 53)"

definition random_float :: "int \<Rightarrow> real \<times> int" where
  "random_float seed = (real_of_int (next_seed seed) / real_of_int n, next_seed seed)"

definition random_int :: "real \<Rightarrow> real \<Rightarrow> int \<Rightarrow> int \<times> int" where
  "random_int lo hi seed =
     (\<lfloor>lo + real_of_int (next_seed seed) / real_of_int n * (hi - lo)\<rfloor>, next_seed seed)"

definition random_bool :: "real \<Rightarrow> int \<Rightarrow> bool \<times> int" where
  "random_bool chance seed = (fst (random_float seed) < chance, snd (random_float seed))"

definition random_normal :: "int \<Rightarrow> real \<times> int" where
  "random_normal seed =
     (let (a, s1) = random_float seed;
          (b, s2) = random_float s1;
          (c, s3) = random_float s2
      in ((a + b + c) / 3, s3))"

text \<open>The first \<open>k\<close> values of successive \<open>Random.float()\<close> calls from a seed.\<close>

fun float_seq :: "nat \<Rightarrow> int \<Rightarrow> real list" where
  "float_seq 0 seed = []"
| "float_seq (Suc k) seed = fst (random_float seed) # float_seq k (snd (random_float seed))"

section \<open>Points and polygons (classes Point, GeomUtils, Polygon)\<close>

text \<open>
  Coordinates are real numbers: the model computes exactly where the source computes in
  double precision. A polygon is the list of its vertices in boundary order.
\<close>

datatype point = Point (px: real) (py: real)

type_synonym polygon = "point list"


definition length_pt :: "point \<Rightarrow> real" where
  "length_pt v = sqrt (px v * px v + py v * py v)"

definition subtract :: "point \<Rightarrow> point \<Rightarrow> point" where
  "subtract a b = Point (px a - px b) (py a - py b)"

definition cross :: "real \<Rightarrow> real \<Rightarrow> real \<Rightarrow> real \<Rightarrow> real" where
  "cross x1 y1 x2 y2 = x1 * y2 - y1 * x2"

definition interpolate :: "point \<Rightarrow> point \<Rightarrow> real \<Rightarrow> point" where
  "interpolate a b ratio = Point (px a + (px b - px a) * ratio) (py a + (py b - py a) * ratio)"

text \<open>\<open>forEdge\<close>: the pairs \<open>(this[i], this[(i + 1) % len])\<close> in order.\<close>

definition edges :: "polygon \<Rightarrow> (point \<times> point) list" where
  "edges poly = map (\<lambda>i. (poly ! i, poly ! ((i + 1) mod length poly))) [0..<length poly]"

definition square :: "polygon \<Rightarrow> real" where
  "square poly =
     (if length poly < 3 then 0
      else (\<Sum>(v1, v2) \<leftarrow> edges poly. px v1 * py v2 - px v2 * py v1) * (1 / 2))"



section \<open>Vertex objects and patches (Polygon constructor, class Patch, Model.buildPatches)\<close>

text \<open>
  Vertices are objects: two polygons may hold the same \<open>Point\<close>, and the generator
  compares and mutates vertices by identity (\<open>indexOf\<close>, \<open>includes\<close>, \<open>v0.x = ...\<close>). The
  store maps the address of each \<open>Point\<close> object to its coordinates; \<open>new Point\<close> takes the
  next free address.
\<close>

type_synonym addr = nat

record heap =
  store :: "addr \<Rightarrow> point"
  next_free :: addr

definition alloc :: "point \<Rightarrow> heap \<Rightarrow> addr \<times> heap" where
  "alloc v h = (next_free h, h\<lparr>store := (store h)(next_free h := v), next_free := Suc (next_free h)\<rparr>)"

text \<open>
  \<open>new Polygon(vertices)\<close>: the constructor pushes \<open>v.clone()\<close> for every vertex, a new
  object with the coordinates of \<open>v\<close>.
\<close>

fun Polygon_new :: "addr list \<Rightarrow> heap \<Rightarrow> addr list \<times> heap" where
  "Polygon_new [] h = ([], h)"
| "Polygon_new (v # vs) h =
     (let (a, h1) = alloc (store h v) h;
          (rest, h2) = Polygon_new vs h1
      in (a # rest, h2))"

datatype ward = Market | GateWard | Castle | Farm | GenericWard | OtherWard

record patch =
  shape :: "addr list"
  ward :: "ward option"
  withinWalls :: bool
  withinCity :: bool

text \<open>A Delaunay triangle with its circumcentre \<open>c\<close>, and a Voronoi region.\<close>

datatype triangle = Triangle (tri_p1: addr) (tri_p2: addr) (tri_p3: addr) (tri_c: addr)

datatype region = Region (region_seed: addr) (vertices: "triangle list")

definition Patch_new :: "addr list \<Rightarrow> heap \<Rightarrow> patch \<times> heap" where
  "Patch_new vs h =
     (let (sh, h1) = Polygon_new vs h
      in (\<lparr>shape = sh, ward = None, withinWalls = False, withinCity = False\<rparr>, h1))"

definition fromRegion :: "region \<Rightarrow> heap \<Rightarrow> patch \<times> heap" where
  "fromRegion r h = Patch_new (map tri_c (vertices r)) h"

text \<open>
  The loop of \<open>buildPatches\<close> over the regions, from \<open>count\<close> on: each region becomes a
  patch; the patch at index \<open>nPatches\<close> is within the city when a citadel is needed, and
  the patches below that index are within the city and within the walls when walls are
  needed. The fields \<open>center\<close>, \<open>plaza\<close>, \<open>citadel\<close> and \<open>inner\<close> of the model, which the
  loop also sets, refer to these patches and are left out.
\<close>

fun patches_from :: "region list \<Rightarrow> int \<Rightarrow> bool \<Rightarrow> bool \<Rightarrow> int \<Rightarrow> heap \<Rightarrow> patch list \<times> heap" where
  "patches_from [] nP citadelNeeded wallsNeeded count h = ([], h)"
| "patches_from (r # rs) nP citadelNeeded wallsNeeded count h =
     (let (p0, h1) = fromRegion r h;
          p1 = (if count \<noteq> 0 \<and> count = nP \<and> citadelNeeded then p0\<lparr>withinCity := True\<rparr> else p0);
          p2 = (if count < nP then p1\<lparr>withinCity := True, withinWalls := wallsNeeded\<rparr> else p1);
          (ps, h2) = patches_from rs nP citadelNeeded wallsNeeded (count + 1) h1
      in (p2 # ps, h2))"

text \<open>\<open>Model.patchByVertex\<close>: the patches whose shape holds the object \<open>v\<close>.\<close>

definition patchByVertex :: "patch list \<Rightarrow> addr \<Rightarrow> patch list" where
  "patchByVertex patches v = filter (\<lambda>p. v \<in> set (shape p)) patches"

section \<open>The city radius (end of Model.createWards)\<close>

text \<open>
  The last loop of \<open>createWards\<close>, from the running radius \<open>r\<close>: a patch within the city
  raises the radius to the length of each of its vertices; any other patch without a ward
  gets a farm (one draw in five, and only a compact shape) or a plain ward.
\<close>

definition coords :: "heap \<Rightarrow> addr list \<Rightarrow> polygon" where
  "coords h sh = map (store h) sh"




section \<open>Gate placement (CurtainWall.buildGates, src/generator/CurtainWall.ts)\<close>

text \<open>
  \<open>Array.splice(start, count)\<close> as the source uses it (removal only): a negative start counts
  from the end, and both start and count are clamped to the array. \<open>js_index\<close> is an
  array read, \<open>None\<close> standing for \<open>undefined\<close> out of range.
\<close>

definition js_splice :: "int \<Rightarrow> int \<Rightarrow> 'a list \<Rightarrow> 'a list" where
  "js_splice start cnt xs =
     (let len = int (length xs);
          s = (if start < 0 then max (len + start) 0 else min start len);
          c = min (max cnt 0) (len - s)
      in take (nat s) xs @ drop (nat (s + c)) xs)"

definition js_index :: "'a list \<Rightarrow> int \<Rightarrow> 'a option" where
  "js_index xs i = (if 0 \<le> i \<and> i < int (length xs) then Some (xs ! nat i) else None)"

text \<open>\<open>const index = Random.int(0, entrances.length - 1)\<close>.\<close>

definition gate_index :: "'a list \<Rightarrow> int \<Rightarrow> int \<times> int" where
  "gate_index entrances seed = random_int 0 (real (length entrances) - 1) seed"

text \<open>The removal of the chosen entrance and of its neighbours in the candidate list.\<close>

definition remove_nearby :: "int \<Rightarrow> 'a list \<Rightarrow> 'a list" where
  "remove_nearby index entrances =
     (let len = int (length entrances) in
      if index = 0 then
        (let e1 = js_splice 0 (min 2 len) entrances in if length e1 > 0 then butlast e1 else e1)
      else if index = len - 1 then
        (let e1 = js_splice (index - 1) (min 2 len) entrances in if length e1 > 0 then tl e1 else e1)
      else js_splice (index - 1) (min 3 len) entrances)"

lemma next_seed_abs: "- n < next_seed seed \<and> next_seed seed < n"
proof -
  have "0 < n" by (simp add: n_def)
  then have "0 \<le> a mod n \<and> a mod n < n" for a by simp
  then show ?thesis
    unfolding next_seed_def js_rem_def
    by (smt (verit))
qed

lemma gate_index_upper:
  assumes "entrances \<noteq> []"
  shows "fst (gate_index entrances seed) \<le> int (length entrances) - 1"
proof -
  define m where "m = real (length entrances) - 1"
  have m0: "0 \<le> m" using assms by (cases entrances) (simp_all add: m_def)
  have npos: "0 < real_of_int n" by (simp add: n_def)
  have "real_of_int (next_seed seed) < real_of_int n"
    using next_seed_abs [of seed] by simp
  then have "real_of_int (next_seed seed) / real_of_int n \<le> 1" using npos by simp
  then have "real_of_int (next_seed seed) / real_of_int n * m \<le> 1 * m"
    using m0 by (rule mult_right_mono)
  then have "\<lfloor>0 + real_of_int (next_seed seed) / real_of_int n * m\<rfloor> \<le> \<lfloor>m\<rfloor>"
    by (simp add: floor_mono)
  moreover have "\<lfloor>m\<rfloor> = int (length entrances) - 1"
    unfolding m_def by linarith
  ultimately show ?thesis by (simp add: gate_index_def random_int_def m_def)
qed

lemma remove_nearby_shorter:
  assumes "entrances \<noteq> []" and "index \<le> int (length entrances) - 1"
  shows "length (remove_nearby index entrances) < length entrances"
  using assms
  by (auto simp: remove_nearby_def js_splice_def Let_def min_def max_def)

text \<open>
  The loop of \<open>buildGates\<close>: while candidates remain, draw an index, record the entrance
  at that index as a gate and remove it with its neighbours. The carving of a road stub
  for a real wall, which sits between the two steps, changes the patches of the model
  only: it reads neither the generator nor the candidate list, and is left out.
\<close>

function place_gates :: "'a list \<Rightarrow> 'a option list \<Rightarrow> int \<Rightarrow> 'a option list \<times> int" where
  "place_gates entrances gates seed =
     (if entrances = [] then (gates, seed)
      else place_gates (remove_nearby (fst (gate_index entrances seed)) entrances)
             (gates @ [js_index entrances (fst (gate_index entrances seed))])
             (snd (gate_index entrances seed)))"
  by pat_completeness auto
termination
  by (relation "measure (\<lambda>(entrances, gates, seed). length entrances)")
     (auto intro: remove_nearby_shorter gate_index_upper)

declare place_gates.simps [simp del]

section \<open>The build drivers (Model.initSync, Model.createAsync, src/generator/Model.ts)\<close>

text \<open>
  The object under construction: the size, the three feature flags drawn in \<open>initSync\<close>,
  and everything the phases of \<open>build()\<close> generate (patches, walls, gates, streets,
  roads, wards and their geometry), kept as one field of any type.
\<close>

record 't model =
  nPatches :: int
  plazaNeeded :: bool
  citadelNeeded :: bool
  wallsNeeded :: bool
  town :: 't

text \<open>
  The static state the driver reads and writes: \<open>Random.seed\<close>, \<open>StateManager.seed\<close>,
  \<open>StateManager.size\<close>, \<open>Model.instance\<close>, the number of \<open>Date.now()\<close> readings taken so
  far and the lines written by \<open>console.error\<close>. The clock itself is a function giving
  the k-th reading.
\<close>

record 't world =
  random_seed :: int
  sm_seed :: int
  sm_size :: int
  model_instance :: "'t model option"
  ticks :: nat
  errors_logged :: "string list"

text \<open>
  \<open>this.build()\<close> runs the six phases on the object with the generator's state. It
  either throws (\<open>Inl\<close>: the message and the object as the phases left it) or returns
  (\<open>Inr\<close>: the finished object and the generator's state). The phases are floating-point
  geometry and are not modelled here; the drivers are modelled for every such function.
  \<open>build()\<close> works on the object it is called on: it empties \<open>streets\<close> and \<open>roads\<close>, its
  first phase empties \<open>patches\<close> and \<open>inner\<close>, and every other field (\<open>citadel\<close>, \<open>plaza\<close>,
  \<open>gates\<close>, ...) keeps its value until a phase assigns it.
\<close>

type_synonym 't build = "'t model \<Rightarrow> int \<Rightarrow> (string \<times> 't model) + ('t model \<times> int)"

text \<open>
  \<open>build()\<close> calls its phases in order (\<open>buildPatches\<close>, \<open>optimizeJunctions\<close>,
  \<open>buildWalls\<close>, \<open>buildStreets\<close>, \<open>createWards\<close>, \<open>buildGeometry\<close>); the exception of a
  phase ends the call.
\<close>

fun build_phases :: "'t build list \<Rightarrow> 't build" where
  "build_phases [] this s = Inr (this, s)"
| "build_phases (phase # phases) this s =
     (case phase this s of
        Inl failure \<Rightarrow> Inl failure
      | Inr (this', s') \<Rightarrow> build_phases phases this' s')"

datatype error = GenerationFailed string

definition MAX_ATTEMPTS :: nat where
  "MAX_ATTEMPTS = 5"

text \<open>\<open>Random.reset(); StateManager.seed = Random.getSeed();\<close>\<close>

definition reset_from_clock :: "(nat \<Rightarrow> int) \<Rightarrow> 't world \<Rightarrow> 't world" where
  "reset_from_clock clock w =
     w\<lparr>random_seed := reset (-1) (clock (ticks w)),
       sm_seed := reset (-1) (clock (ticks w)),
       ticks := Suc (ticks w)\<rparr>"

text \<open>
  The loop \<open>while (!success && attempts < MAX_ATTEMPTS)\<close>; the result is \<open>success\<close>,
  \<open>attempts\<close>, the object and the static state when the loop ends.
\<close>

function retry_loop ::
  "'t build \<Rightarrow> (nat \<Rightarrow> int) \<Rightarrow> nat \<Rightarrow> 't model \<Rightarrow> 't world \<Rightarrow> bool \<times> nat \<times> 't model \<times> 't world"
where
  "retry_loop build clock attempts this w =
     (if attempts < MAX_ATTEMPTS then
        (case build this (random_seed w) of
           Inr (this', s') \<Rightarrow>
             (True, attempts, this', w\<lparr>random_seed := s', model_instance := Some this'\<rparr>)
         | Inl (e, this') \<Rightarrow>
             retry_loop build clock (Suc attempts) this'
               ((reset_from_clock clock w)\<lparr>errors_logged := errors_logged w @ [e]\<rparr>))
      else (False, attempts, this, w))"
  by pat_completeness auto
termination
  by (relation "measure (\<lambda>(build, clock, attempts, this, w). MAX_ATTEMPTS - attempts)") auto

declare retry_loop.simps [simp del]

text \<open>
  The start of \<open>initSync\<close>: the size and the three flags, each one \<open>Random.bool()\<close>; the
  result is the object and the generator's state before the first attempt.
\<close>

definition init_flags :: "'t model \<Rightarrow> int \<Rightarrow> int \<Rightarrow> 't model \<times> int" where
  "init_flags this nP s0 =
     (let (plaza, s1) = random_bool (1 / 2) s0;
          (citadel, s2) = random_bool (1 / 2) s1;
          (walls, s3) = random_bool (1 / 2) s2
      in (this\<lparr>nPatches := (if nP \<noteq> -1 then nP else 15), plazaNeeded := plaza,
                citadelNeeded := citadel, wallsNeeded := walls\<rparr>, s3))"

definition initSync ::
  "'t build \<Rightarrow> (nat \<Rightarrow> int) \<Rightarrow> 't model \<Rightarrow> int \<Rightarrow> int \<Rightarrow> 't world \<Rightarrow> (error + 't model) \<times> 't world"
where
  "initSync build clock this nP seed w =
     (let w1 = (if seed > 0 then w\<lparr>random_seed := reset seed (clock (ticks w))\<rparr>
                else reset_from_clock clock w);
          w2 = w1\<lparr>sm_size := (if nP \<noteq> -1 then nP else 15)\<rparr>;
          (this1, s3) = init_flags this nP (random_seed w2);
          (success, attempts, this2, w3) = retry_loop build clock 0 this1 (w2\<lparr>random_seed := s3\<rparr>)
      in if success then (Inr this2, w3)
         else (Inl (GenerationFailed ''Failed to generate town after multiple attempts''), w3))"

text \<open>
  \<open>Model.createAsync\<close>, the second driver. It awaits a promise whose executor only
  starts a timer; the phases run in the timer's callback, an \<open>async\<close> function that
  calls \<open>resolve\<close> as its last statement. An exception in a phase rejects the promise
  of that callback, which nothing awaits; the awaited promise is then never settled,
  and \<open>createAsync\<close> does not go on. The executor itself cannot throw, so the awaited
  promise is never rejected.
\<close>

datatype 't settled = Resolved "'t model" int | Rejected string | Unsettled

definition await_attempt :: "'t build \<Rightarrow> 't model \<Rightarrow> int \<Rightarrow> 't settled" where
  "await_attempt phases this s =
     (case phases this s of
        Inr (this', s') \<Rightarrow> Resolved this' s'
      | Inl failure \<Rightarrow> Unsettled)"

text \<open>
  What a call of \<open>createAsync\<close> comes to: it returns the object, it throws, or it is
  suspended for ever at its \<open>await\<close>.
\<close>

datatype 't outcome = Returned "'t model" "'t world" | Failed error "'t world" | Pending

function async_loop ::
  "'t build \<Rightarrow> (nat \<Rightarrow> int) \<Rightarrow> nat \<Rightarrow> 't model \<Rightarrow> 't world \<Rightarrow> 't outcome"
where
  "async_loop phases clock attempts this w =
     (if attempts < MAX_ATTEMPTS then
        (case await_attempt phases this (random_seed w) of
           Resolved this' s' \<Rightarrow>
             Returned this' (w\<lparr>random_seed := s', model_instance := Some this'\<rparr>)
         | Rejected e \<Rightarrow>
             async_loop phases clock (Suc attempts) this
               ((reset_from_clock clock w)\<lparr>errors_logged := errors_logged w @ [e]\<rparr>)
         | Unsettled \<Rightarrow> Pending)
      else Failed (GenerationFailed ''Failed to generate town after multiple attempts'') w)"
  by pat_completeness auto
termination
  by (relation "measure (\<lambda>(phases, clock, attempts, this, w). MAX_ATTEMPTS - attempts)") auto

declare async_loop.simps [simp del]

definition createAsync ::
  "'t build \<Rightarrow> (nat \<Rightarrow> int) \<Rightarrow> 't model \<Rightarrow> int \<Rightarrow> int \<Rightarrow> 't world \<Rightarrow> 't outcome"
where
  "createAsync phases clock this nP seed w =
     (let w1 = (if seed > 0 then w\<lparr>random_seed := reset seed (clock (ticks w))\<rparr>
                else reset_from_clock clock w);
          w2 = w1\<lparr>sm_size := (if nP \<noteq> -1 then nP else 15)\<rparr>;
          (this1, s3) = init_flags this nP (random_seed w2)
      in async_loop phases clock 0 this1 (w2\<lparr>random_seed := s3\<rparr>))"

section \<open>The pathfinder (Graph.aStar, src/geom/Graph.ts)\<close>

text \<open>
  Nodes are objects, named here by numbers; \<open>links n\<close> is the \<open>Map\<close> of node \<open>n\<close> from
  neighbours to prices, as the list of its entries in insertion order. A score is a number
  or \<open>Infinity\<close>.
\<close>

type_synonym node = nat

datatype score = Fin real | Infinity

fun score_add :: "score \<Rightarrow> real \<Rightarrow> score" where
  "score_add (Fin a) d = Fin (a + d)"
| "score_add Infinity d = Infinity"

fun score_less :: "score \<Rightarrow> score \<Rightarrow> bool" where
  "score_less (Fin a) (Fin b) = (a < b)"
| "score_less (Fin a) Infinity = True"
| "score_less Infinity b = False"

text \<open>
  \<open>map.get(node) || Infinity\<close>: the right operand is taken when the left one is falsy,
  that is, when the key is absent (\<open>undefined\<close>) and also when the stored number is 0.
\<close>

fun or_Infinity :: "score option \<Rightarrow> score" where
  "or_Infinity None = Infinity"
| "or_Infinity (Some (Fin a)) = (if a = 0 then Infinity else Fin a)"
| "or_Infinity (Some Infinity) = Infinity"

record search =
  closedSet :: "node list"
  openSet :: "node list"
  cameFrom :: "node \<Rightarrow> node option"
  gScore :: "node \<Rightarrow> score option"
  fScore :: "node \<Rightarrow> score option"

text \<open>The scan for the node of the open set with the lowest \<open>fScore\<close>.\<close>

definition lowest :: "(node \<Rightarrow> score option) \<Rightarrow> node list \<Rightarrow> node" where
  "lowest f open_nodes =
     fst (fold (\<lambda>node (current, lowestScore).
                  if score_less (or_Infinity (f node)) lowestScore
                  then (node, or_Infinity (f node)) else (current, lowestScore))
            (tl open_nodes) (hd open_nodes, or_Infinity (f (hd open_nodes))))"

text \<open>The body of \<open>for (const [neighbor, distance] of current.links.entries())\<close>.\<close>

definition visit :: "node \<Rightarrow> score \<Rightarrow> node \<times> real \<Rightarrow> search \<Rightarrow> search" where
  "visit current curScore entry st =
     (let neighbor = fst entry; dist = snd entry in
      if neighbor \<in> set (closedSet st) then st
      else
        (let sc = score_add curScore dist in
         if neighbor \<notin> set (openSet st) then
           st\<lparr>openSet := openSet st @ [neighbor],
              cameFrom := (cameFrom st)(neighbor \<mapsto> current),
              gScore := (gScore st)(neighbor \<mapsto> sc),
              fScore := (fScore st)(neighbor \<mapsto> sc)\<rparr>
         else if \<not> score_less sc (or_Infinity (gScore st neighbor)) then st
         else
           st\<lparr>cameFrom := (cameFrom st)(neighbor \<mapsto> current),
              gScore := (gScore st)(neighbor \<mapsto> sc),
              fScore := (fScore st)(neighbor \<mapsto> sc)\<rparr>))"

text \<open>
  \<open>Graph.buildPath\<close>: follow \<open>cameFrom\<close> back from the goal. The loop runs while the map
  has the current node; the count bounds the number of steps, and \<open>None\<close> says it was used
  up.
\<close>

fun buildPath :: "nat \<Rightarrow> (node \<Rightarrow> node option) \<Rightarrow> node \<Rightarrow> node list \<Rightarrow> node list option" where
  "buildPath 0 cf current path = None"
| "buildPath (Suc k) cf current path =
     (case cf current of
        None \<Rightarrow> Some path
      | Some prev \<Rightarrow> buildPath k cf prev (prev # path))"

text \<open>
  The main loop. The outer \<open>option\<close> is \<open>None\<close> when the step count is used up; the inner
  one is the result of the source, \<open>None\<close> for \<open>null\<close> (no path).
\<close>

fun aStar_loop :: "nat \<Rightarrow> (node \<Rightarrow> (node \<times> real) list) \<Rightarrow> node \<Rightarrow> search \<Rightarrow> node list option option" where
  "aStar_loop 0 links goal st = None"
| "aStar_loop (Suc k) links goal st =
     (if openSet st = [] then Some None
      else
        (let current = lowest (fScore st) (openSet st) in
         if current = goal then
           (case buildPath (Suc k) (cameFrom st) current [current] of
              None \<Rightarrow> None
            | Some path \<Rightarrow> Some (Some path))
         else
           (let st1 = st\<lparr>openSet := remove1 current (openSet st),
                          closedSet := closedSet st @ [current]\<rparr>;
                curScore = or_Infinity (gScore st1 current)
            in aStar_loop k links goal (fold (visit current curScore) (links current) st1))))"

definition aStar :: "nat \<Rightarrow> (node \<Rightarrow> (node \<times> real) list) \<Rightarrow> node \<Rightarrow> node \<Rightarrow> node list \<Rightarrow> node list option option" where
  "aStar k links start goal exclude =
     aStar_loop k links goal
       \<lparr>closedSet = exclude, openSet = [start], cameFrom = Map.empty,
        gScore = [start \<mapsto> Fin 0], fScore = [start \<mapsto> Fin 0]\<rparr>"

text \<open>\<open>Graph.calculatePrice\<close>; \<open>None\<close> stands for \<open>NaN\<close> (two nodes are not linked).\<close>

fun calculatePrice :: "(node \<Rightarrow> (node \<times> real) list) \<Rightarrow> node list \<Rightarrow> real option" where
  "calculatePrice links (a # b # rest) =
     (case map_of (links a) b of
        None \<Rightarrow> None
      | Some d \<Rightarrow> (case calculatePrice links (b # rest) of None \<Rightarrow> None | Some p \<Rightarrow> Some (d + p)))"
| "calculatePrice links path = Some 0"

text \<open>
  A graph of three nodes for the worked example: the direct link from 0 to 2 costs 10,
  the way round over node 1 costs 1 + 1.
\<close>

definition detour_links :: "node \<Rightarrow> (node \<times> real) list" where
  "detour_links v =
     (if v = 0 then [(2, 10), (1, 1)]
      else if v = 1 then [(0, 1), (2, 1)]
      else if v = 2 then [(0, 10), (1, 1)]
      else [])"

section \<open>Cutting polygons (GeomUtils.intersectLines, Polygon.cut, Cutter.bisect)\<close>

text \<open>
  \<open>cut\<close> and its callers read coordinates only and return polygons made of new points, so
  they are modelled on lists of coordinates. \<open>intersectLines\<close> returns the parameters
  \<open>(t1, t2)\<close> of the crossing on the two lines as a point, or \<open>null\<close> (\<open>None\<close>) when the
  lines are taken for parallel.
\<close>

definition intersectLines ::
  "real \<Rightarrow> real \<Rightarrow> real \<Rightarrow> real \<Rightarrow> real \<Rightarrow> real \<Rightarrow> real \<Rightarrow> real \<Rightarrow> point option" where
  "intersectLines x1 y1 dx1 dy1 x2 y2 dx2 dy2 =
     (let d = dx1 * dy2 - dy1 * dx2 in
      if \<bar>d\<bar> < 1 / 10000 then None
      else
        (let t2 = (dy1 * (x2 - x1) - dx1 * (y2 - y1)) / d;
             t1 = (if dx1 \<noteq> 0 then (x2 - x1 + dx2 * t2) / dx1 else (y2 - y1 + dy2 * t2) / dy1)
         in Some (Point t1 t2)))"

text \<open>\<open>Array.slice(a, b)\<close> for indices that are not negative.\<close>

definition js_slice :: "'a list \<Rightarrow> nat \<Rightarrow> nat \<Rightarrow> 'a list" where
  "js_slice xs a b = take (b - a) (drop a xs)"

text \<open>
  The first loop of \<open>cut\<close>: the state is \<open>(edge1, ratio1, edge2, ratio2, count)\<close>; an
  edge counts when the line meets it at a parameter \<open>t.y\<close> with \<open>0 \<le> t.y \<le> 1\<close>.
\<close>

definition cut_step ::
  "polygon \<Rightarrow> point \<Rightarrow> point \<Rightarrow> nat \<Rightarrow> nat \<times> real \<times> nat \<times> real \<times> nat \<Rightarrow> nat \<times> real \<times> nat \<times> real \<times> nat" where
  "cut_step poly p1 p2 i st =
     (let (edge1, ratio1, edge2, ratio2, count) = st;
          v0 = poly ! i;
          v1 = poly ! ((i + 1) mod length poly)
      in case intersectLines (px p1) (py p1) (px p2 - px p1) (py p2 - py p1)
                (px v0) (py v0) (px v1 - px v0) (py v1 - py v0) of
           None \<Rightarrow> st
         | Some t \<Rightarrow>
             if py t \<ge> 0 \<and> py t \<le> 1 then
               (if count = 0 then (i, px t, edge2, ratio2, count + 1)
                else if count = 1 then (edge1, ratio1, i, px t, count + 1)
                else (edge1, ratio1, edge2, ratio2, count + 1))
             else st)"

definition cut_scan :: "polygon \<Rightarrow> point \<Rightarrow> point \<Rightarrow> nat \<times> real \<times> nat \<times> real \<times> nat" where
  "cut_scan poly p1 p2 = fold (cut_step poly p1 p2) [0..<length poly] (0, 0, 0, 0, 0)"

text \<open>
  \<open>Polygon.cut(p1, p2, gap)\<close>. The branch \<open>if (gap > 0)\<close> of the source is empty, so the
  gap does not occur on the right-hand side.
\<close>

definition cut :: "polygon \<Rightarrow> point \<Rightarrow> point \<Rightarrow> real \<Rightarrow> polygon list" where
  "cut poly p1 p2 gap =
     (let (edge1, ratio1, edge2, ratio2, count) = cut_scan poly p1 p2 in
      if count = 2 then
        (let point1 = Point (px p1 + (px p2 - px p1) * ratio1) (py p1 + (py p2 - py p1) * ratio1);
             point2 = Point (px p1 + (px p2 - px p1) * ratio2) (py p1 + (py p2 - py p1) * ratio2);
             half1 = point1 # js_slice poly (edge1 + 1) (edge2 + 1) @ [point2];
             half2 = point2 # (drop (edge2 + 1) poly @ js_slice poly 0 (edge1 + 1)) @ [point1];
             v = subtract (poly ! ((edge1 + 1) mod length poly)) (poly ! edge1)
         in if cross (px p2 - px p1) (py p2 - py p1) (px v) (py v) > 0
            then [half1, half2] else [half2, half1])
      else [poly])"


section \<open>Block subdivision (Ward.createAlleys, Ward.createOrthoBuilding)\<close>

text \<open>
  The exceptions of this part of the source: the \<open>ReferenceError\<close> of an identifier that
  is not bound, and \<open>new Error(message)\<close>.
\<close>

datatype thrown = ReferenceError string | Error string




text \<open>
  \<open>Polygon.vector\<close>, \<open>Point.rotate90\<close>, \<open>Point.add\<close> and \<open>GeomUtils.scalar\<close>. A vertex is
  given by its index: the constructor of \<open>Polygon\<close> copies every vertex, so the objects of
  one polygon are distinct and \<open>indexOf\<close> finds the index the vertex was taken from.
\<close>

definition vector :: "polygon \<Rightarrow> nat \<Rightarrow> point" where
  "vector poly i = subtract (poly ! ((i + 1) mod length poly)) (poly ! i)"

definition rotate90 :: "point \<Rightarrow> point" where
  "rotate90 p = Point (- py p) (px p)"

definition add :: "point \<Rightarrow> point \<Rightarrow> point" where
  "add p q = Point (px p + px q) (py p + py q)"

definition scalar :: "real \<Rightarrow> real \<Rightarrow> real \<Rightarrow> real \<Rightarrow> real" where
  "scalar x1 y1 x2 y2 = x1 * x2 + y1 * y2"

text \<open>
  \<open>Ward.findLongestEdge(poly)\<close>, that is \<open>poly.min(v => -poly.vector(v).length())\<close>: the
  first vertex whose edge is at least as long as every other edge; \<open>None\<close> when \<open>min\<close>
  throws \<open>Error("Empty polygon")\<close>.
\<close>

definition findLongestEdge :: "polygon \<Rightarrow> nat option" where
  "findLongestEdge poly =
     (if poly = [] then None
      else Some (fst (fold (\<lambda>i (minVertex, minValue).
                              if - length_pt (vector poly i) < minValue
                              then (i, - length_pt (vector poly i))
                              else (minVertex, minValue))
                        [1..<length poly] (0, - length_pt (vector poly 0)))))"

text \<open>
  The helper \<open>slice\<close> of \<open>createOrthoBuilding\<close> and its loop over the halves. The first
  argument bounds the depth of the recursion: the result is \<open>None\<close> when the bound is
  reached, and otherwise the exception or the buildings with the state of the generator.
\<close>

fun slice ::
    "nat \<Rightarrow> polygon \<Rightarrow> point \<Rightarrow> point \<Rightarrow> real \<Rightarrow> real \<Rightarrow> int \<Rightarrow> (thrown + polygon list \<times> int) option"
  and slice_halves ::
    "nat \<Rightarrow> polygon list \<Rightarrow> point \<Rightarrow> point \<Rightarrow> real \<Rightarrow> real \<Rightarrow> polygon list \<Rightarrow> int
       \<Rightarrow> (thrown + polygon list \<times> int) option"
where
  "slice 0 poly c1 c2 minBlockSq fill seed = None"
| "slice (Suc k) poly c1 c2 minBlockSq fill seed =
     (case findLongestEdge poly of
        None \<Rightarrow> Some (Inl (Error ''Empty polygon''))
      | Some i \<Rightarrow>
          (let v0 = poly ! i;
               v1 = poly ! ((i + 1) mod length poly);
               v = subtract v1 v0;
               (f, s1) = random_float seed;
               ratio = 4 / 10 + f * (2 / 10);
               p1 = interpolate v0 v1 ratio;
               c = (if \<bar>scalar (px v) (py v) (px c1) (py c1)\<bar> < \<bar>scalar (px v) (py v) (px c2) (py c2)\<bar>
                    then c1 else c2);
               halves = cut poly p1 (add p1 c) 0
           in slice_halves k halves c1 c2 minBlockSq fill [] s1))"
| "slice_halves k [] c1 c2 minBlockSq fill buildings seed = Some (Inr (buildings, seed))"
| "slice_halves k (half # rest) c1 c2 minBlockSq fill buildings seed =
     (let (nrm, s1) = random_normal seed;
          sizeVariation = 2 powr (nrm * 2 - 1)
      in if square half < minBlockSq * sizeVariation then
           (let (keep, s2) = random_bool fill s1
            in slice_halves k rest c1 c2 minBlockSq fill
                 (if keep then buildings @ [half] else buildings) s2)
         else
           (case slice k half c1 c2 minBlockSq fill s1 of
              None \<Rightarrow> None
            | Some (Inl e) \<Rightarrow> Some (Inl e)
            | Some (Inr (sub, s2)) \<Rightarrow>
                slice_halves k rest c1 c2 minBlockSq fill (buildings @ sub) s2))"

text \<open>
  The loop \<open>for (let attempt = 0; attempt < maxAttempts; attempt++)\<close> of
  \<open>createOrthoBuilding\<close> (the second argument counts the attempts left) and
  \<open>createOrthoBuilding\<close> itself.
\<close>

fun ortho_attempts ::
  "nat \<Rightarrow> nat \<Rightarrow> polygon \<Rightarrow> point \<Rightarrow> point \<Rightarrow> real \<Rightarrow> real \<Rightarrow> int \<Rightarrow> (thrown + polygon list \<times> int) option"
where
  "ortho_attempts k 0 poly c1 c2 minBlockSq fill seed = Some (Inr ([poly], seed))"
| "ortho_attempts k (Suc m) poly c1 c2 minBlockSq fill seed =
     (case slice k poly c1 c2 minBlockSq fill seed of
        None \<Rightarrow> None
      | Some (Inl e) \<Rightarrow> Some (Inl e)
      | Some (Inr (blocks, s1)) \<Rightarrow>
          if blocks \<noteq> [] then Some (Inr (blocks, s1))
          else ortho_attempts k m poly c1 c2 minBlockSq fill s1)"

definition createOrthoBuilding ::
  "nat \<Rightarrow> polygon \<Rightarrow> real \<Rightarrow> real \<Rightarrow> int \<Rightarrow> (thrown + polygon list \<times> int) option" where
  "createOrthoBuilding k poly minBlockSq fill seed =
     (if square poly < minBlockSq then Some (Inr ([poly], seed))
      else
        (case findLongestEdge poly of
           None \<Rightarrow> Some (Inl (Error ''Empty polygon''))
         | Some i \<Rightarrow>
             (let c1 = vector poly i;
                  c2 = rotate90 c1
              in ortho_attempts k 10 poly c1 c2 minBlockSq fill seed)))"

text \<open>
  A block with a notch: a rectangle of 10 by 3 from which a strip of 9 by 1 is taken out
  on the left, counter-clockwise, of area 21.
\<close>

definition notched_block :: polygon where
  "notched_block = [Point 0 0, Point 10 0, Point 10 3, Point 0 3,
                    Point 0 2, Point 9 2, Point 9 1, Point 0 1]"

section \<open>Notions for the area of the two halves of a cut\<close>











fun pairs :: "'a list \<Rightarrow> ('a \<times> 'a) list" where
  "pairs (a # b # rest) = (a, b) # pairs (b # rest)"
| "pairs [a] = []"
| "pairs [] = []"

definition cross3 :: "point \<Rightarrow> point \<Rightarrow> point \<Rightarrow> real" where
  "cross3 q a b = (px a - px q) * (py b - py q) - (px b - px q) * (py a - py q)"

definition chain_at :: "point \<Rightarrow> point list \<Rightarrow> real" where
  "chain_at q xs = (\<Sum>e \<leftarrow> pairs xs. cross3 q (fst e) (snd e))"




section \<open>Verified properties\<close>

subsection \<open>The random number generator\<close>

lemma js_rem_range: "0 \<le> a \<Longrightarrow> 0 \<le> js_rem a n \<and> js_rem a n < n"
  by (simp add: js_rem_def n_def)

lemma next_seed_range: "0 \<le> seed \<Longrightarrow> 0 \<le> next_seed seed \<and> next_seed seed < n"
  unfolding next_seed_def by (rule js_rem_range) (simp add: g_def)

lemma random_float_range:
  assumes "0 \<le> seed"
  shows "0 \<le> fst (random_float seed) \<and> fst (random_float seed) < 1 \<and> 0 \<le> snd (random_float seed)"
proof -
  have r: "0 \<le> next_seed seed" "next_seed seed < n"
    using next_seed_range [OF assms] by simp_all
  have npos: "0 < real_of_int n" by (simp add: n_def)
  have "real_of_int (next_seed seed) < real_of_int n" using r by simp
  then have "real_of_int (next_seed seed) / real_of_int n < 1"
    using npos by simp
  moreover have "0 \<le> real_of_int (next_seed seed) / real_of_int n"
    using r npos by simp
  ultimately show ?thesis using r by (simp add: random_float_def)
qed

lemma float_seq_range:
  "0 \<le> seed \<Longrightarrow> v \<in> set (float_seq k seed) \<Longrightarrow> 0 \<le> v \<and> v < 1"
proof (induction k arbitrary: seed)
  case 0
  then show ?case by simp
next
  case (Suc k)
  from Suc.prems(2) have "v = fst (random_float seed) \<or> v \<in> set (float_seq k (snd (random_float seed)))"
    by simp
  then show ?case
  proof
    assume "v = fst (random_float seed)"
    then show ?thesis using random_float_range [OF Suc.prems(1)] by simp
  next
    assume "v \<in> set (float_seq k (snd (random_float seed)))"
    moreover have "0 \<le> snd (random_float seed)"
      using random_float_range [OF Suc.prems(1)] by simp
    ultimately show ?thesis using Suc.IH by blast
  qed
qed

lemma exact_seed_next: "exact_seed (next_seed seed)"
proof -
  have "\<bar>next_seed seed\<bar> < n"
    using next_seed_abs [of seed] by linarith
  then have "\<bar>next_seed seed\<bar> * g < n * g"
    by (simp add: g_def)
  also have "n * g < 2 ^ 53"
    by (simp add: g_def n_def)
  finally show ?thesis
    by (simp add: exact_seed_def abs_mult g_def)
qed

text \<open>
  Claim C4, as amended. For every exact seed that is not negative, the values of
  successive \<open>Random.float()\<close> calls after \<open>Random.reset(seed)\<close> do not depend on the clock
  (they are a function of the seed alone) and each of them lies in \<open>[0, 1)\<close>.
\<close>

theorem float_seq_reproducible_in_unit_interval:
  assumes "0 \<le> seed" and "exact_seed seed"
  shows "float_seq k (reset seed now1) = float_seq k (reset seed now2)
       \<and> (\<forall>v \<in> set (float_seq k (reset seed now1)). 0 \<le> v \<and> v < 1)"
proof -
  have "reset seed now1 = seed" "reset seed now2 = seed"
    using assms(1) by (simp_all add: reset_def)
  then show ?thesis using float_seq_range [OF assms(1)] by auto
qed

theorem float_seq_reproducible_witness:
  "0 \<le> (42::int) \<and> exact_seed 42
   \<and> float_seq 2 (reset 42 0) = float_seq 2 (reset 42 1000)
   \<and> list_all (\<lambda>v. 0 \<le> v \<and> v < 1) (float_seq 2 (reset 42 0))"
  using float_seq_reproducible_in_unit_interval [of 42 2 0 1000]
  by (simp add: list_all_iff exact_seed_def g_def)

text \<open>
  The claim as stated (every seed) fails: \<open>Random.reset(-5)\<close> keeps the seed \<open>-5\<close>, an
  exact seed; the remainder of a negative product is negative, and the first
  \<open>Random.float()\<close> is \<open>-241355 / 2147483647\<close>.
\<close>

theorem float_negative_seed_counterexample:
  "exact_seed (- 5) \<and> fst (random_float (reset (- 5) 0)) < 0"
  by (simp add: exact_seed_def random_float_def reset_def next_seed_def js_rem_def g_def n_def)

subsection \<open>Gate placement\<close>

lemma gate_index_below_last:
  assumes "2 \<le> length entrances"
  shows "fst (gate_index entrances seed) < int (length entrances) - 1"
proof -
  define m where "m = real (length entrances) - 1"
  define f where "f = real_of_int (next_seed seed) / real_of_int n"
  have m1: "1 \<le> m" using assms by (simp add: m_def)
  have npos: "0 < real_of_int n" by (simp add: n_def)
  have "real_of_int (next_seed seed) < real_of_int n"
    using next_seed_abs [of seed] by simp
  then have f: "f < 1" using npos by (simp add: f_def)
  have "f * m < 1 * m" using f m1 by (intro mult_strict_right_mono) simp_all
  then have "f * m < real_of_int (int (length entrances) - 1)" by (simp add: m_def)
  then have "\<lfloor>f * m\<rfloor> < int (length entrances) - 1" by (simp add: floor_less_iff)
  then show ?thesis by (simp add: gate_index_def random_int_def m_def f_def)
qed

lemma place_gates_prefix:
  "\<exists>more. fst (place_gates entrances gates seed) = gates @ more"
proof (induction entrances gates seed rule: place_gates.induct)
  case (1 entrances gates seed)
  show ?case
  proof (cases "entrances = []")
    case True
    then show ?thesis by (subst place_gates.simps) simp
  next
    case False
    from "1.IH" [OF False] obtain more where
      "fst (place_gates (remove_nearby (fst (gate_index entrances seed)) entrances)
             (gates @ [js_index entrances (fst (gate_index entrances seed))])
             (snd (gate_index entrances seed)))
       = (gates @ [js_index entrances (fst (gate_index entrances seed))]) @ more"
      by blast
    with False show ?thesis by (subst place_gates.simps) simp
  qed
qed

lemma place_gates_first:
  assumes "entrances \<noteq> []"
  shows "hd (fst (place_gates entrances [] seed))
       = js_index entrances (fst (gate_index entrances seed))"
proof -
  obtain more where
    "fst (place_gates (remove_nearby (fst (gate_index entrances seed)) entrances)
           ([] @ [js_index entrances (fst (gate_index entrances seed))])
           (snd (gate_index entrances seed)))
     = ([] @ [js_index entrances (fst (gate_index entrances seed))]) @ more"
    using place_gates_prefix by blast
  with assms show ?thesis by (subst place_gates.simps) simp
qed

text \<open>
  Claim C10 (the code departs from it). \<open>Random.int(min, max)\<close> excludes \<open>max\<close>, and
  \<open>buildGates\<close> passes \<open>entrances.length - 1\<close> as \<open>max\<close>: with two or more candidates
  left, the index drawn is below the last index for every state of the generator. So the
  first gate placed is never the last candidate of the list, and the choice is not uniform
  over the remaining candidates.
\<close>

theorem place_gates_never_picks_last_candidate:
  assumes "2 \<le> length entrances" and "distinct entrances"
  shows "hd (fst (place_gates entrances [] seed)) \<noteq> Some (last entrances)"
proof -
  let ?i = "fst (gate_index entrances seed)"
  have ne: "entrances \<noteq> []" using assms(1) by auto
  have lt: "?i < int (length entrances) - 1"
    using gate_index_below_last [OF assms(1)] .
  have "js_index entrances ?i \<noteq> Some (last entrances)"
  proof (cases "0 \<le> ?i")
    case True
    then have "nat ?i < length entrances - 1" using lt by linarith
    then have "entrances ! nat ?i \<noteq> entrances ! (length entrances - 1)"
      using assms(2) ne by (simp add: nth_eq_iff_index_eq)
    then show ?thesis using ne by (simp add: js_index_def last_conv_nth)
  next
    case False
    then show ?thesis by (simp add: js_index_def)
  qed
  then show ?thesis using place_gates_first [OF ne] by simp
qed

theorem place_gates_never_picks_last_witness:
  "2 \<le> length [1, 2, 3 :: nat] \<and> distinct [1, 2, 3 :: nat]
   \<and> hd (fst (place_gates [1, 2, 3 :: nat] [] 42)) \<noteq> Some (last [1, 2, 3 :: nat])"
  using place_gates_never_picks_last_candidate [of "[1, 2, 3 :: nat]" 42]
  by simp

subsection \<open>The build drivers\<close>

lemma build_phases_throws:
  assumes "build_phases before this s = Inr (this1, s1)" and "phase this1 s1 = Inl failure"
  shows "build_phases (before @ phase # after) this s = Inl failure"
  using assms
proof (induction before arbitrary: this s)
  case Nil
  then show ?case by simp
next
  case (Cons first before)
  show ?case
  proof (cases "first this s")
    case (Inl l)
    with Cons.prems(1) show ?thesis by simp
  next
    case (Inr r)
    obtain m t where r: "r = (m, t)" by (cases r)
    from Cons.prems(1) Inr r have "build_phases before m t = Inr (this1, s1)" by simp
    from Cons.IH [OF this Cons.prems(2)] Inr r show ?thesis by simp
  qed
qed

lemma retry_loop_contract:
  assumes "retry_loop build clock a this w = (ok, a', this', w')" and "a \<le> MAX_ATTEMPTS"
  shows "a \<le> a' \<and> a' \<le> MAX_ATTEMPTS
       \<and> ticks w' = ticks w + (a' - a)
       \<and> length (errors_logged w') = length (errors_logged w) + (a' - a)
       \<and> (if ok
           then a' < MAX_ATTEMPTS \<and> model_instance w' = Some this'
                \<and> (\<exists>this0 s0. build this0 s0 = Inr (this', random_seed w')
                      \<and> (if a' = a then this0 = this \<and> s0 = random_seed w
                          else s0 = reset (-1) (clock (ticks w' - 1))
                               \<and> (\<exists>before sb e. build before sb = Inl (e, this0))))
           else a' = MAX_ATTEMPTS \<and> model_instance w' = model_instance w)"
  using assms
proof (induction build clock a this w rule: retry_loop.induct)
  case (1 build clock attempts this w)
  show ?case
  proof (cases "attempts < MAX_ATTEMPTS")
    case False
    with "1.prems" show ?thesis
      by (subst (asm) retry_loop.simps) auto
  next
    case True
    show ?thesis
    proof (cases "build this (random_seed w)")
      case (Inr r)
      obtain m s where r: "r = (m, s)" by (cases r)
      from "1.prems"(1) True Inr r
      have "ok" "a' = attempts" "this' = m"
           "w' = w\<lparr>random_seed := s, model_instance := Some m\<rparr>"
        by (subst (asm) retry_loop.simps, simp)+
      with True Inr r show ?thesis by auto
    next
      case (Inl l)
      obtain e m where l: "l = (e, m)" by (cases l)
      let ?w = "(reset_from_clock clock w)\<lparr>errors_logged := errors_logged w @ [e]\<rparr>"
      from "1.prems"(1) True Inl l
      have rec: "retry_loop build clock (Suc attempts) m ?w = (ok, a', this', w')"
        by (subst (asm) retry_loop.simps) simp
      have le: "Suc attempts \<le> MAX_ATTEMPTS" using True by simp
      note ih = "1.IH" [OF True Inl l [symmetric] rec le]
      have tk: "ticks ?w = Suc (ticks w)" "model_instance ?w = model_instance w"
               "length (errors_logged ?w) = Suc (length (errors_logged w))"
               "random_seed ?w = reset (-1) (clock (ticks w))"
        by (simp_all add: reset_from_clock_def)
      have failed: "build this (random_seed w) = Inl (e, m)" using Inl l by simp
      show ?thesis
      proof (cases ok)
        case False
        with ih tk show ?thesis by auto
      next
        case True
        with ih obtain this0 s0 where
          b: "build this0 s0 = Inr (this', random_seed w')"
          and s0: "if a' = Suc attempts then this0 = m \<and> s0 = random_seed ?w
                   else s0 = reset (-1) (clock (ticks w' - 1))
                        \<and> (\<exists>before sb e. build before sb = Inl (e, this0))"
          by auto
        have "s0 = reset (-1) (clock (ticks w' - 1))"
          using s0 ih tk by (auto split: if_splits)
        moreover have "\<exists>before sb e. build before sb = Inl (e, this0)"
          using s0 failed by (auto split: if_splits)
        moreover have "a' \<noteq> attempts" using ih by auto
        ultimately show ?thesis using ih tk b True by auto
      qed
    qed
  qed
qed

lemma initSync_unfold:
  "initSync build clock this nP seed w =
     (let w2 = (if seed > 0 then w\<lparr>random_seed := reset seed (clock (ticks w))\<rparr>
                else reset_from_clock clock w)\<lparr>sm_size := (if nP \<noteq> -1 then nP else 15)\<rparr>;
          start = init_flags this nP (random_seed w2);
          r = retry_loop build clock 0 (fst start) (w2\<lparr>random_seed := snd start\<rparr>)
      in if fst r then (Inr (fst (snd (snd r))), snd (snd (snd r)))
         else (Inl (GenerationFailed ''Failed to generate town after multiple attempts''),
               snd (snd (snd r))))"
  by (simp add: initSync_def Let_def split_beta)

text \<open>
  What \<open>initSync\<close> does, whatever the phases do (for every \<open>build\<close>). Either it returns the
  object of a call of \<open>build\<close> that ran to its end, published as \<open>Model.instance\<close>, after
  fewer than five failed attempts (one logged error each). That call ran on the start
  state when no attempt failed; otherwise it ran on a generator reset from the latest
  clock reading and on the object as a failed attempt left it: the failed attempt is not
  discarded, its fields stay unless \<open>build\<close> assigns them again. Or \<open>initSync\<close> fails with
  the terminal error after exactly five failed attempts, and \<open>Model.instance\<close> is what it
  was before.
\<close>

lemma initSync_bounded_retry:
  assumes "initSync build clock this nP seed w = (res, w')"
  shows "(case res of
            Inr m \<Rightarrow>
              model_instance w' = Some m
              \<and> length (errors_logged w') - length (errors_logged w) < MAX_ATTEMPTS
              \<and> (\<exists>this0 s0. build this0 s0 = Inr (m, random_seed w')
                    \<and> (if length (errors_logged w') = length (errors_logged w)
                        then (this0, s0) = init_flags this nP
                               (if seed > 0 then seed else reset (-1) (clock (ticks w)))
                        else s0 = reset (-1) (clock (ticks w' - 1))
                             \<and> (\<exists>before sb e. build before sb = Inl (e, this0))))
          | Inl e \<Rightarrow>
              e = GenerationFailed ''Failed to generate town after multiple attempts''
              \<and> model_instance w' = model_instance w
              \<and> length (errors_logged w') = length (errors_logged w) + MAX_ATTEMPTS)"
proof -
  define w2 where "w2 = (if seed > 0 then w\<lparr>random_seed := reset seed (clock (ticks w))\<rparr>
                else reset_from_clock clock w)\<lparr>sm_size := (if nP \<noteq> -1 then nP else 15)\<rparr>"
  define start where "start = init_flags this nP (random_seed w2)"
  define w3 where "w3 = w2\<lparr>random_seed := snd start\<rparr>"
  obtain ok a' this' wf where r: "retry_loop build clock 0 (fst start) w3 = (ok, a', this', wf)"
    by (metis prod_cases4)
  have w2: "random_seed w2 = (if seed > 0 then seed else reset (-1) (clock (ticks w)))"
           "model_instance w2 = model_instance w" "errors_logged w2 = errors_logged w"
    by (auto simp: w2_def reset_def reset_from_clock_def)
  have w3: "random_seed w3 = snd start" "model_instance w3 = model_instance w"
           "errors_logged w3 = errors_logged w"
    using w2 by (simp_all add: w3_def)
  note c = retry_loop_contract [OF r, simplified w3]
  have res: "res = (if ok then Inr this'
                    else Inl (GenerationFailed ''Failed to generate town after multiple attempts''))"
       and wf: "w' = wf"
    using assms r unfolding initSync_unfold w2_def [symmetric] Let_def start_def [symmetric]
      w3_def [symmetric]
    by (auto split: if_splits)
  show ?thesis
  proof (cases ok)
    case False
    with c res wf show ?thesis by simp
  next
    case True
    with c obtain this0 s0 where
      b: "build this0 s0 = Inr (this', random_seed wf)"
      and s0: "if a' = 0 then this0 = fst start \<and> s0 = snd start
               else s0 = reset (-1) (clock (ticks wf - 1))
                    \<and> (\<exists>before sb e. build before sb = Inl (e, this0))"
      by auto
    have len: "length (errors_logged wf) = length (errors_logged w) + a'" "a' < MAX_ATTEMPTS"
      using c True by simp_all
    have inst: "model_instance wf = Some this'" using c True by simp
    have pick: "if length (errors_logged wf) = length (errors_logged w)
          then (this0, s0) = init_flags this nP
                 (if seed > 0 then seed else reset (-1) (clock (ticks w)))
          else s0 = reset (-1) (clock (ticks wf - 1))
               \<and> (\<exists>before sb e. build before sb = Inl (e, this0))"
      using s0 len w2 by (auto simp: start_def split: if_splits)
    have "\<exists>this0 s0. build this0 s0 = Inr (this', random_seed wf)
            \<and> (if length (errors_logged wf) = length (errors_logged w)
                then (this0, s0) = init_flags this nP
                       (if seed > 0 then seed else reset (-1) (clock (ticks w)))
                else s0 = reset (-1) (clock (ticks wf - 1))
                     \<and> (\<exists>before sb e. build before sb = Inl (e, this0)))"
      using b pick by blast
    moreover have "length (errors_logged wf) - length (errors_logged w) < MAX_ATTEMPTS"
      using len by simp
    moreover have "res = Inr this'" using True res by simp
    ultimately show ?thesis unfolding wf using inst by (simp split del: if_split)
  qed
qed

lemma await_attempt_not_rejected: "await_attempt phases this s \<noteq> Rejected e"
  by (simp add: await_attempt_def split: sum.splits prod.splits)

lemma async_loop_first_attempt:
  "async_loop phases clock 0 this w =
     (case phases this (random_seed w) of
        Inr (this', s') \<Rightarrow> Returned this' (w\<lparr>random_seed := s', model_instance := Some this'\<rparr>)
      | Inl failure \<Rightarrow> Pending)"
  by (subst async_loop.simps)
     (simp add: MAX_ATTEMPTS_def await_attempt_def split: sum.splits prod.splits)

text \<open>
  Claim C3 (the code departs from it). \<open>Model.createAsync\<close> has the retry loop of
  \<open>initSync\<close>, but its \<open>catch\<close> is never entered: whatever the phases do, the call either
  returns the object of the first attempt, with no error logged, or it stays suspended.
  It never makes a second attempt and never fails with the terminal error.
\<close>

theorem createAsync_never_retries:
  "createAsync phases clock this nP seed w = Pending
   \<or> (\<exists>m w'. createAsync phases clock this nP seed w = Returned m w'
         \<and> model_instance w' = Some m
         \<and> errors_logged w' = errors_logged w
         \<and> ticks w' \<le> Suc (ticks w))"
proof -
  define w2 where "w2 = (if seed > 0 then w\<lparr>random_seed := reset seed (clock (ticks w))\<rparr>
                else reset_from_clock clock w)\<lparr>sm_size := (if nP \<noteq> -1 then nP else 15)\<rparr>"
  define start where "start = init_flags this nP (random_seed w2)"
  define w3 where "w3 = w2\<lparr>random_seed := snd start\<rparr>"
  have w3: "errors_logged w3 = errors_logged w" "ticks w3 \<le> Suc (ticks w)"
    by (simp_all add: w3_def w2_def reset_from_clock_def)
  have run: "createAsync phases clock this nP seed w = async_loop phases clock 0 (fst start) w3"
    by (simp add: createAsync_def Let_def split_beta w3_def start_def w2_def)
  show ?thesis
  proof (cases "phases (fst start) (random_seed w3)")
    case (Inl failure)
    then show ?thesis unfolding run async_loop_first_attempt by simp
  next
    case (Inr r)
    obtain m s where "r = (m, s)" by (cases r)
    with Inr w3 show ?thesis unfolding run async_loop_first_attempt by simp
  qed
qed

subsection \<open>The city radius\<close>






subsection \<open>Vertex identity\<close>

lemma Polygon_new_fresh:
  "Polygon_new vs h = (as, h') \<Longrightarrow>
     as = [next_free h ..< next_free h + length vs] \<and> next_free h' = next_free h + length vs"
proof (induction vs arbitrary: h as h')
  case Nil
  then show ?case by simp
next
  case (Cons v vs)
  obtain rest h2 where r: "Polygon_new vs (snd (alloc (store h v) h)) = (rest, h2)"
    by (cases "Polygon_new vs (snd (alloc (store h v) h))")
  from Cons.prems r have as: "as = next_free h # rest" and h': "h' = h2"
    by (simp_all add: alloc_def split_beta Let_def)
  from Cons.IH [OF r] have
    "rest = [Suc (next_free h) ..< Suc (next_free h) + length vs]"
    "next_free h2 = Suc (next_free h) + length vs"
    by (simp_all add: alloc_def)
  moreover have "[next_free h ..< next_free h + length (v # vs)]
      = next_free h # [Suc (next_free h) ..< Suc (next_free h) + length vs]"
    by (subst upt_rec) simp
  ultimately show ?case using as h' by simp
qed

lemma Polygon_new_keeps:
  "Polygon_new vs h = (as, h') \<Longrightarrow> a < next_free h \<Longrightarrow> store h' a = store h a"
proof (induction vs arbitrary: h as h')
  case Nil
  then show ?case by simp
next
  case (Cons v vs)
  obtain rest h2 where r: "Polygon_new vs (snd (alloc (store h v) h)) = (rest, h2)"
    by (cases "Polygon_new vs (snd (alloc (store h v) h))")
  from Cons.prems(1) r have h': "h' = h2"
    by (simp add: alloc_def split_beta Let_def)
  have "store h2 a = store (snd (alloc (store h v) h)) a"
    using Cons.IH [OF r] Cons.prems(2) by (simp add: alloc_def)
  then show ?case using h' Cons.prems(2) by (simp add: alloc_def)
qed

lemma Polygon_new_copies:
  "Polygon_new vs h = (as, h') \<Longrightarrow> \<forall>v \<in> set vs. v < next_free h \<Longrightarrow>
     coords h' as = coords h vs"
proof (induction vs arbitrary: h as h')
  case Nil
  then show ?case by (simp add: coords_def)
next
  case (Cons v vs)
  let ?h1 = "snd (alloc (store h v) h)"
  obtain rest h2 where r: "Polygon_new vs ?h1 = (rest, h2)"
    by (cases "Polygon_new vs ?h1")
  from Cons.prems(1) r have as: "as = next_free h # rest" and h': "h' = h2"
    by (simp_all add: alloc_def split_beta Let_def)
  have old: "\<forall>u \<in> set vs. u < next_free ?h1" "\<forall>u \<in> set vs. store ?h1 u = store h u"
    using Cons.prems(2) by (auto simp: alloc_def)
  have "coords h2 rest = coords ?h1 vs" using Cons.IH [OF r old(1)] .
  also have "\<dots> = coords h vs" using old(2) by (simp add: coords_def)
  finally have rest: "coords h2 rest = coords h vs" .
  have "store h2 (next_free h) = store ?h1 (next_free h)"
    using Polygon_new_keeps [OF r, of "next_free h"] by (simp add: alloc_def)
  then have "store h2 (next_free h) = store h v" by (simp add: alloc_def)
  then show ?case using rest as h' by (simp add: coords_def)
qed

lemma patches_from_fresh:
  "patches_from rs nP cN wN count h = (ps, h') \<Longrightarrow>
     concat (map shape ps) = [next_free h ..< next_free h'] \<and> next_free h \<le> next_free h'"
proof (induction rs arbitrary: count h ps h')
  case Nil
  then show ?case by simp
next
  case (Cons r rs)
  obtain p0 h1 where f: "fromRegion r h = (p0, h1)" by (cases "fromRegion r h")
  obtain qs h2 where q: "patches_from rs nP cN wN (count + 1) h1 = (qs, h2)"
    by (cases "patches_from rs nP cN wN (count + 1) h1")
  from f obtain sh where pn: "Polygon_new (map tri_c (vertices r)) h = (sh, h1)"
    and p0: "shape p0 = sh"
    by (auto simp: fromRegion_def Patch_new_def split: prod.splits)
  from Polygon_new_fresh [OF pn] have
    sh: "sh = [next_free h ..< next_free h1]" and le1: "next_free h \<le> next_free h1"
    by simp_all
  from Cons.prems f q obtain p2 where ps: "ps = p2 # qs" and p2: "shape p2 = shape p0" and h': "h' = h2"
    by (auto simp: Let_def)
  from Cons.IH [OF q] have
    qs: "concat (map shape qs) = [next_free h1 ..< next_free h2]" and le2: "next_free h1 \<le> next_free h2"
    by simp_all
  have "[next_free h ..< next_free h1] @ [next_free h1 ..< next_free h2] = [next_free h ..< next_free h2]"
    using le1 le2 by (metis le_Suc_ex upt_add_eq_append)
  then show ?case using ps p2 p0 sh qs h' le1 le2 by simp
qed

lemma concat_distinct_parts:
  "distinct (concat xss) \<Longrightarrow> i < j \<Longrightarrow> j < length xss \<Longrightarrow> set (xss ! i) \<inter> set (xss ! j) = {}"
proof (induction xss arbitrary: i j)
  case Nil
  then show ?case by simp
next
  case (Cons xs xss)
  obtain j' where j: "j = Suc j'" using Cons.prems(2) by (cases j) simp_all
  show ?case
  proof (cases i)
    case 0
    have "xss ! j' \<in> set xss" using Cons.prems(3) j by simp
    then have "set xs \<inter> set (xss ! j') = {}" using Cons.prems(1) by auto
    then show ?thesis using 0 j by simp
  next
    case (Suc i')
    then show ?thesis using Cons j by simp
  qed
qed

lemma filter_only_one:
  assumes "i < length xs" and "P (xs ! i)"
    and "\<And>j. j < length xs \<Longrightarrow> j \<noteq> i \<Longrightarrow> \<not> P (xs ! j)"
  shows "filter P xs = [xs ! i]"
proof -
  have xs: "xs = take i xs @ xs ! i # drop (Suc i) xs"
    using assms(1) by (rule id_take_nth_drop)
  have "filter P (take i xs) = []"
  proof -
    have "\<not> P y" if "y \<in> set (take i xs)" for y
    proof -
      from that obtain k where "k < length (take i xs)" "y = take i xs ! k"
        by (auto simp: in_set_conv_nth)
      then show ?thesis using assms(1) assms(3) [of k] by simp
    qed
    then show ?thesis by (simp add: filter_empty_conv)
  qed
  moreover have "filter P (drop (Suc i) xs) = []"
  proof -
    have "\<not> P y" if "y \<in> set (drop (Suc i) xs)" for y
    proof -
      from that obtain k where "k < length (drop (Suc i) xs)" "y = drop (Suc i) xs ! k"
        by (auto simp: in_set_conv_nth)
      then show ?thesis using assms(1) assms(3) [of "Suc i + k"] by simp
    qed
    then show ?thesis by (simp add: filter_empty_conv)
  qed
  ultimately have "filter P (take i xs @ xs ! i # drop (Suc i) xs) = [xs ! i]"
    using assms(2) by simp
  then show ?thesis using xs by simp
qed

lemma patchByVertex_own_patch_only:
  assumes "distinct (concat (map shape ps))" and "i < length ps" and "v \<in> set (shape (ps ! i))"
  shows "patchByVertex ps v = [ps ! i]"
  unfolding patchByVertex_def
proof (rule filter_only_one [OF assms(2)])
  show "v \<in> set (shape (ps ! i))" by (rule assms(3))
next
  fix j assume j: "j < length ps" "j \<noteq> i"
  have "set (map shape ps ! i) \<inter> set (map shape ps ! j) = {}"
  proof (cases "i < j")
    case True
    then show ?thesis using concat_distinct_parts [OF assms(1), of i j] j by simp
  next
    case False
    then have "j < i" using j by simp
    then show ?thesis using concat_distinct_parts [OF assms(1), of j i] assms(2) by auto
  qed
  then show "v \<notin> set (shape (ps ! j))" using assms(2,3) j by auto
qed

text \<open>
  Claim C2 (the code departs from it). \<open>Patch.fromRegion\<close> hands the circumcentres of
  the region's triangles, objects that neighbouring regions share, to the \<open>Polygon\<close>
  constructor, which pushes a clone of each. So after \<open>buildPatches\<close> no address
  occurs twice in the shapes of the patches: a boundary vertex of two adjacent patches is
  two objects with equal coordinates (\<open>Polygon_new_copies\<close>), never one shared object.
  With that, \<open>patchByVertex\<close> of a vertex finds the one patch that holds it
  (\<open>patchByVertex_own_patch_only\<close>), and the merge of two vertices in \<open>optimizeJunctions\<close>
  reaches no other patch.
\<close>

theorem patches_share_no_vertex_object:
  "distinct (concat (map shape (fst (patches_from regions nP citadel walls count h))))"
proof -
  obtain ps h' where r: "patches_from regions nP citadel walls count h = (ps, h')"
    by (cases "patches_from regions nP citadel walls count h")
  from patches_from_fresh [OF r] show ?thesis using r by simp
qed

subsection \<open>The pathfinder\<close>

text \<open>
  Claim C9 (the code departs from it). The score of the start node is stored as 0 and read
  back as \<open>gScore.get(current) || Infinity\<close>, which is \<open>Infinity\<close> for 0. Every tentative
  score is then \<open>Infinity\<close>, no node is ever preferred or improved, and the open set is
  served in the order of discovery. In the graph \<open>detour_links\<close> the search from 0 to 2
  returns the direct link of price 10 although the path over node 1 has price 2: the
  result is not a path of least cost.
\<close>

theorem aStar_returns_costlier_path:
  "aStar 10 detour_links 0 2 [] = Some (Some [0, 2])
   \<and> calculatePrice detour_links [0, 2] = Some 10
   \<and> calculatePrice detour_links [0, 1, 2] = Some 2"
  by (simp add: aStar_def detour_links_def lowest_def visit_def Let_def eval_nat_numeral)

subsection \<open>Cuts and subdivision\<close>








lemma random_float_abs: "- 1 < fst (random_float seed) \<and> fst (random_float seed) < 1"
proof -
  have npos: "0 < real_of_int n" by (simp add: n_def)
  have "real_of_int (- n) < real_of_int (next_seed seed)" "real_of_int (next_seed seed) < real_of_int n"
    using next_seed_abs [of seed] by (simp_all only: of_int_less_iff)
  then have "- 1 < real_of_int (next_seed seed) / real_of_int n"
    and "real_of_int (next_seed seed) / real_of_int n < 1"
    using npos by (simp_all add: field_simps)
  then show ?thesis by (simp add: random_float_def)
qed

lemma random_normal_below_one: "fst (random_normal seed) < 1"
proof -
  obtain a s1 where a: "random_float seed = (a, s1)" by (cases "random_float seed")
  obtain b s2 where b: "random_float s1 = (b, s2)" by (cases "random_float s1")
  obtain c s3 where c: "random_float s2 = (c, s3)" by (cases "random_float s2")
  have "a < 1" "b < 1" "c < 1"
    using random_float_abs [of seed] random_float_abs [of s1] random_float_abs [of s2] a b c
    by simp_all
  then show ?thesis by (simp add: random_normal_def a b c)
qed

lemma notched_longest_edge: "findLongestEdge notched_block = Some 0"
  by (simp add: findLongestEdge_def notched_block_def vector_def subtract_def length_pt_def
      upt_rec)

lemma notched_square: "square notched_block = 21"
  by (simp add: notched_block_def square_def edges_def upt_rec cross_def)

lemma notched_cut:
  assumes "1 / 5 < r" and "r < 3 / 5"
  shows "cut notched_block (Point (10 * r) 0) (Point (10 * r) 10) gap = [notched_block]"
  using assms
  by (simp add: cut_def cut_scan_def cut_step_def intersectLines_def notched_block_def upt_rec
      Let_def)

lemma notched_vertices:
  "notched_block \<noteq> []" "length notched_block = 8" "notched_block ! 0 = Point 0 0"
  "notched_block ! Suc 0 = Point 10 0"
  by (simp_all add: notched_block_def)

lemma slice_notched_step:
  "slice (Suc k) notched_block (Point 10 0) (Point 0 10) m fill seed
     = slice_halves k
         (cut notched_block (Point (10 * (4 / 10 + fst (random_float seed) * (2 / 10))) 0)
            (Point (10 * (4 / 10 + fst (random_float seed) * (2 / 10))) 10) 0)
         (Point 10 0) (Point 0 10) m fill [] (snd (random_float seed))"
  by (simp add: notched_longest_edge notched_vertices Let_def split_beta scalar_def
      subtract_def interpolate_def add_def del: slice_halves.simps)

lemma slice_notched_block:
  "slice k notched_block (Point 10 0) (Point 0 10) 8 fill seed = None"
proof (induction k arbitrary: seed)
  case 0
  show ?case by simp
next
  case (Suc k)
  define f where "f = fst (random_float seed)"
  define s1 where "s1 = snd (random_float seed)"
  obtain nrm s2 where nrm: "random_normal s1 = (nrm, s2)" by (cases "random_normal s1")
  have fr: "- 1 < f" "f < 1" using random_float_abs [of seed] by (simp_all add: f_def)
  have r: "1 / 5 < 4 / 10 + f * (2 / 10)" "4 / 10 + f * (2 / 10) < 3 / 5"
    using fr by simp_all
  have "nrm < 1" using random_normal_below_one [of s1] nrm by simp
  then have "2 powr (nrm * 2 - 1) < 2 powr 1"
    by (intro powr_less_mono) simp_all
  then have big: "\<not> square notched_block < 8 * 2 powr (nrm * 2 - 1)"
    by (simp add: notched_square)
  have "slice (Suc k) notched_block (Point 10 0) (Point 0 10) 8 fill seed
        = slice_halves k [notched_block] (Point 10 0) (Point 0 10) 8 fill [] s1"
    unfolding slice_notched_step f_def [symmetric] s1_def [symmetric] notched_cut [OF r] ..
  also have "\<dots> = None"
    using big Suc.IH [of s2] by (simp add: nrm)
  finally show ?case .
qed

lemma ortho_attempts_first:
  "slice k poly c1 c2 m fill seed = None \<Longrightarrow> ortho_attempts k (Suc a) poly c1 c2 m fill seed = None"
  by simp

lemma createOrthoBuilding_notched_block:
  "createOrthoBuilding k notched_block 8 fill seed = None"
proof -
  have c: "vector notched_block 0 = Point 10 0" "rotate90 (Point 10 0) = Point 0 10"
    by (simp_all add: vector_def notched_vertices subtract_def rotate90_def)
  have "ortho_attempts k (Suc 9) notched_block (Point 10 0) (Point 0 10) 8 fill seed = None"
    by (rule ortho_attempts_first) (rule slice_notched_block)
  then show ?thesis
    by (simp add: createOrthoBuilding_def notched_square notched_longest_edge c
        del: ortho_attempts.simps)
qed

text \<open>
  Claim C7 (the code departs from it). \<open>createAlleys\<close> ends at once, by the exception
  above. \<open>createOrthoBuilding\<close> does not always end: on the notched block with
  \<open>minBlockSq = 8\<close> the first call of \<open>slice\<close> never returns, whatever the fill
  probability and the state of the generator. The cut is made across the longest edge
  \<open>(0,0), (10,0)\<close> at a ratio between 0.2 and 0.6 and meets four edges, so \<open>cut\<close> returns
  the block unsplit; its area 21 is not below \<open>8 * sizeVariation < 16\<close>, and \<open>slice\<close>
  calls itself on the same block. No bound on the depth of the recursion is enough.
\<close>

theorem createOrthoBuilding_never_returns_on_notched_block:
  assumes "exact_seed seed"
  shows "createOrthoBuilding k notched_block 8 fill seed = None"
  by (rule createOrthoBuilding_notched_block)

theorem createOrthoBuilding_never_returns_witness:
  "exact_seed 42 \<and> createOrthoBuilding 5 notched_block 8 (1 / 2) 42 = None"
proof -
  have e: "exact_seed 42" by (simp add: exact_seed_def g_def)
  from createOrthoBuilding_never_returns_on_notched_block [OF e, of 5 "1 / 2"] e
  show ?thesis by simp
qed

text \<open>
  The bound on the depth is not what stops the model: where the cuts succeed, \<open>slice\<close>
  returns. On the square of side 4 with a block size of 200 it returns the two halves of
  its first cut.
\<close>

lemma square_cut_shape:
  assumes "0 < r" and "r < 1"
  shows "cut [Point 0 0, Point 4 0, Point 4 4, Point 0 4] (Point (4 * r) 0) (Point (4 * r) 4) 0
         = [[Point (4 * r) 4, Point 0 4, Point 0 0, Point (4 * r) 0],
            [Point (4 * r) 0, Point 4 0, Point 4 4, Point (4 * r) 4]]"
  using assms
  by (simp add: cut_def cut_scan_def cut_step_def intersectLines_def subtract_def cross_def
      js_slice_def Let_def upt_rec [of 0] upt_rec [of 1] upt_rec [of 2] upt_rec [of 3]
      upt_rec [of 4])

lemma random_normal_above: "- 1 < fst (random_normal seed)"
proof -
  obtain a s1 where a: "random_float seed = (a, s1)" by (cases "random_float seed")
  obtain b s2 where b: "random_float s1 = (b, s2)" by (cases "random_float s1")
  obtain c s3 where c: "random_float s2 = (c, s3)" by (cases "random_float s2")
  have "- 1 < a" "- 1 < b" "- 1 < c"
    using random_float_abs [of seed] random_float_abs [of s1] random_float_abs [of s2] a b c
    by simp_all
  then show ?thesis by (simp add: random_normal_def a b c)
qed

lemma small_half_kept:
  assumes "\<bar>square half\<bar> < 16"
  shows "slice_halves k (half # rest) c1 c2 200 1 buildings seed
         = slice_halves k rest c1 c2 200 1 (buildings @ [half])
             (snd (random_float (snd (random_normal seed))))"
proof -
  obtain nrm s1 where nrm: "random_normal seed = (nrm, s1)" by (cases "random_normal seed")
  have "- 1 < nrm" using random_normal_above [of seed] nrm by simp
  then have "2 powr (- 3) \<le> 2 powr (nrm * 2 - 1)"
    by (intro powr_mono) simp_all
  moreover have "(2::real) powr (- 3) = 1 / 8"
    by (simp add: powr_minus divide_simps)
  ultimately have "square half < 200 * 2 powr (nrm * 2 - 1)"
    using assms by simp
  moreover have "fst (random_float s1) < 1" using random_float_abs [of s1] by simp
  ultimately show ?thesis
    by (simp add: nrm random_bool_def del: slice_halves.simps(1))
qed

lemma slice_returns_on_square:
  "\<exists>bs s. slice (Suc k) [Point 0 0, Point 4 0, Point 4 4, Point 0 4] (Point 4 0) (Point 0 4)
             200 1 seed = Some (Inr (bs, s)) \<and> length bs = 2"
proof -
  define f where "f = fst (random_float seed)"
  define r where "r = 4 / 10 + f * (2 / 10)"
  have fr: "- 1 < f" "f < 1" using random_float_abs [of seed] by (simp_all add: f_def)
  then have r: "0 < r" "r < 1" by (simp_all add: r_def)
  let ?sq = "[Point 0 0, Point 4 0, Point 4 4, Point 0 4]"
  let ?h1 = "[Point (4 * r) 4, Point 0 4, Point 0 0, Point (4 * r) 0]"
  let ?h2 = "[Point (4 * r) 0, Point 4 0, Point 4 4, Point (4 * r) 4]"
  have le: "findLongestEdge ?sq = Some 0"
    by (simp add: findLongestEdge_def vector_def subtract_def length_pt_def upt_rec)
  have step: "slice (Suc k) ?sq (Point 4 0) (Point 0 4) 200 1 seed
        = slice_halves k (cut ?sq (Point (4 * r) 0) (Point (4 * r) 4) 0) (Point 4 0) (Point 0 4)
            200 1 [] (snd (random_float seed))"
    by (simp add: le Let_def split_beta scalar_def subtract_def interpolate_def add_def r_def
        f_def del: slice_halves.simps)
  have a1: "\<bar>square ?h1\<bar> < 16" and a2: "\<bar>square ?h2\<bar> < 16"
    using r by (simp_all add: square_def edges_def upt_rec)
  show ?thesis
    unfolding step square_cut_shape [OF r] small_half_kept [OF a1] small_half_kept [OF a2]
    by simp
qed

subsection \<open>The areas of the two halves of a cut\<close>









lemma cross3_split:
  "cross3 q a (interpolate a b s) + cross3 q (interpolate a b s) b = cross3 q a b"
  by (simp add: cross3_def interpolate_def algebra_simps)




lemma cross3_same [simp]: "cross3 q q b = 0" "cross3 q a q = 0"
  by (simp_all add: cross3_def)






lemma chain_at_single [simp]: "chain_at q [a] = 0" "chain_at q [] = 0"
  by (simp_all add: chain_at_def)











lemma cross3_antisym: "cross3 q v u + cross3 q u v = 0"
  by (simp add: cross3_def algebra_simps)




















































end
